theory Spec2Isabelle
  imports Main "HOL-Library.Sublist" "HOL-Library.AList"
begin

section \<open>Go strings and byte slices\<close>

text \<open>
  A Go \<open>string\<close> and a Go \<open>[]byte\<close> are both sequences of bytes, and the handler converts
  freely between them (\<open>string(data[0:3])\<close>). Both are modelled as \<open>char list\<close>: an
  Isabelle \<open>char\<close> is one byte. \<open>len\<close> is \<open>length\<close>; the slice \<open>s[lo:hi]\<close> is
  \<open>take (hi - lo) (drop lo s)\<close>, used only where the source has checked the bounds.

  The functions of package \<open>strings\<close> are modelled on bytes. \<open>ToLower\<close> and \<open>TrimSpace\<close>
  follow Go on ASCII input; on other input Go maps Unicode code points. No code point outside
  ASCII lowers to a byte that occurs in one of the HTML markers searched for below, so the
  searches of \<open>isHTMLContent\<close> give the same answer on arbitrary bytes.
\<close>

type_synonym bytes = "char list"

definition HasPrefix :: "string \<Rightarrow> string \<Rightarrow> bool" where
  "HasPrefix s pre = (length s \<ge> length pre \<and> take (length pre) s = pre)"

definition HasSuffix :: "string \<Rightarrow> string \<Rightarrow> bool" where
  "HasSuffix s suf = (length s \<ge> length suf \<and> drop (length s - length suf) s = suf)"

fun Index :: "string \<Rightarrow> string \<Rightarrow> int" where
  "Index [] sub = (if sub = [] then 0 else - 1)"
| "Index (c # cs) sub =
     (if HasPrefix (c # cs) sub then 0
      else (let i = Index cs sub in if i = - 1 then - 1 else i + 1))"

fun LastIndex :: "string \<Rightarrow> string \<Rightarrow> int" where
  "LastIndex [] sub = (if sub = [] then 0 else - 1)"
| "LastIndex (c # cs) sub =
     (let i = LastIndex cs sub in
      if i \<noteq> - 1 then i + 1
      else if HasPrefix (c # cs) sub then 0 else - 1)"

definition Contains :: "string \<Rightarrow> string \<Rightarrow> bool" where
  "Contains s sub = (Index s sub \<ge> 0)"

definition ToLowerByte :: "char \<Rightarrow> char" where
  "ToLowerByte c =
     (let n = (of_char c :: nat) in if 65 \<le> n \<and> n \<le> 90 then char_of (n + 32) else c)"

definition ToLower :: "string \<Rightarrow> string" where
  "ToLower s = map ToLowerByte s"

definition isSpace :: "char \<Rightarrow> bool" where
  "isSpace c = (c \<in> set [CHR 0x09, CHR 0x0A, CHR 0x0B, CHR 0x0C, CHR 0x0D, CHR 0x20])"

definition TrimSpace :: "string \<Rightarrow> string" where
  "TrimSpace s = rev (dropWhile isSpace (rev (dropWhile isSpace s)))"

section \<open>Constants and data\<close>

definition MaxImageSize :: int where
  "MaxImageSize = 3932160"

definition MaxImagesPerCall :: nat where
  "MaxImagesPerCall = 10"

definition MaxConcurrentDownloads :: nat where
  "MaxConcurrentDownloads = 3"

definition MaxInlineImageBudget :: int where
  "MaxInlineImageBudget = 750 * 1024"

definition DefaultJPEGQuality :: int where
  "DefaultJPEGQuality = 80"

definition MinJPEGQuality :: int where
  "MinJPEGQuality = 40"

definition JPEGQualityStep :: int where
  "JPEGQualityStep = 20"

text \<open>
  \<open>ImageInfo\<close>, as the struct of the handler. \<open>Size\<close> is a Go \<open>int\<close>; the sizes that occur
  are far below \<open>2^63\<close>, so it is modelled as an unbounded integer.
\<close>

record ImageInfo =
  FileID :: string
  Name :: string
  MimeType :: string
  Size :: int
  URL :: string
  MsgTS :: string

text \<open>The two fields of \<open>slack.Attachment\<close> that the handler reads.\<close>

record Attachment =
  ImageURL :: string
  ThumbURL :: string

text \<open>
  A Go \<open>map[string]bool\<close> read with \<open>m[k]\<close> gives \<open>false\<close> for an absent key. The two
  tables are kept as association lists in the order of the source, with that lookup.
\<close>

definition lookupBool :: "(string \<times> bool) list \<Rightarrow> string \<Rightarrow> bool" where
  "lookupBool m k = (case map_of m k of None \<Rightarrow> False | Some b \<Rightarrow> b)"

definition allowedImageHosts :: "(string \<times> bool) list" where
  "allowedImageHosts =
     [(''files.slack.com'', True), (''slack-edge.com'', True), (''avatars.slack-edge.com'', True)]"

definition supportedImageMimeTypes :: "(string \<times> bool) list" where
  "supportedImageMimeTypes =
     [(''image/png'', True), (''image/jpeg'', True), (''image/gif'', True), (''image/webp'', True)]"

section \<open>Host allow-list and MIME types\<close>

text \<open>
  \<open>url.Parse\<close> belongs to the Go standard library, not to this repository. The handler
  observes two things of a parsed URL: \<open>Hostname()\<close> and \<open>Path\<close>. The parser is therefore a
  parameter \<open>parse\<close> of every function that calls \<open>url.Parse\<close>; \<open>None\<close> is the parse error.
\<close>

record ParsedURL =
  Hostname :: string
  Path :: string

type_synonym urlParser = "string \<Rightarrow> ParsedURL option"

text \<open>
  The loop \<open>for allowed := range allowedImageHosts\<close> with its early \<open>return true\<close>, over the
  keys in some order (Go does not fix the iteration order of a map).
\<close>

fun rangeSubdomain :: "string \<Rightarrow> string list \<Rightarrow> bool" where
  "rangeSubdomain host [] = False"
| "rangeSubdomain host (allowed # rest) =
     (if HasSuffix host (''.'' @ allowed) then True else rangeSubdomain host rest)"

definition isAllowedImageHost :: "urlParser \<Rightarrow> string \<Rightarrow> bool" where
  "isAllowedImageHost parse rawURL =
     (case parse rawURL of
        None \<Rightarrow> False
      | Some parsed \<Rightarrow>
          (let host = Hostname parsed in
           if lookupBool allowedImageHosts host then True
           else rangeSubdomain host (map fst allowedImageHosts)))"

definition isImageMimeType :: "string \<Rightarrow> bool" where
  "isImageMimeType mimeType0 =
     (let mimeType1 = TrimSpace mimeType0;
          idx = Index mimeType1 '';'';
          mimeType2 = (if idx \<noteq> - 1 then TrimSpace (take (nat idx) mimeType1) else mimeType1);
          mimeType3 = ToLower mimeType2
      in lookupBool supportedImageMimeTypes mimeType3)"

definition guessMimeTypeFromURL :: "urlParser \<Rightarrow> string \<Rightarrow> string" where
  "guessMimeTypeFromURL parse rawURL =
     (case parse rawURL of
        None \<Rightarrow> []
      | Some parsed \<Rightarrow>
          (let path = ToLower (Path parsed) in
           if HasSuffix path ''.png'' then ''image/png''
           else if HasSuffix path ''.jpg'' \<or> HasSuffix path ''.jpeg'' then ''image/jpeg''
           else if HasSuffix path ''.gif'' then ''image/gif''
           else if HasSuffix path ''.webp'' then ''image/webp''
           else ''image/png''))"

definition extractFilenameFromURL :: "urlParser \<Rightarrow> string \<Rightarrow> string" where
  "extractFilenameFromURL parse rawURL =
     (case parse rawURL of
        None \<Rightarrow> ''image''
      | Some parsed \<Rightarrow>
          (let path = Path parsed; idx = LastIndex path ''/'' in
           if idx \<noteq> - 1 then
             (let filename = drop (nat (idx + 1)) path in
              if filename \<noteq> [] then filename else ''image'')
           else ''image''))"

section \<open>Extraction from attachments\<close>

text \<open>
  One iteration of the loop of \<open>ExtractImagesFromAttachments\<close>: the references it appends
  for one attachment. The \<open>continue\<close> in the thumbnail branch ends the iteration.
\<close>

definition attachmentImages :: "urlParser \<Rightarrow> string \<Rightarrow> Attachment \<Rightarrow> ImageInfo list" where
  "attachmentImages parse msgTS attachment =
     (let images1 =
        (if ImageURL attachment \<noteq> [] \<and> isAllowedImageHost parse (ImageURL attachment) then
           (let mimeType = guessMimeTypeFromURL parse (ImageURL attachment) in
            if isImageMimeType mimeType then
              [\<lparr>FileID = [], Name = extractFilenameFromURL parse (ImageURL attachment),
                MimeType = mimeType, Size = 0, URL = ImageURL attachment, MsgTS = msgTS\<rparr>]
            else [])
         else [])
      in
      if ThumbURL attachment \<noteq> [] \<and> isAllowedImageHost parse (ThumbURL attachment) then
        (if ImageURL attachment \<noteq> [] \<and> isAllowedImageHost parse (ImageURL attachment) then images1
         else
           (let mimeType = guessMimeTypeFromURL parse (ThumbURL attachment) in
            if isImageMimeType mimeType then
              images1 @
              [\<lparr>FileID = [], Name = extractFilenameFromURL parse (ThumbURL attachment),
                MimeType = mimeType, Size = 0, URL = ThumbURL attachment, MsgTS = msgTS\<rparr>]
            else images1))
      else images1)"

fun ExtractImagesFromAttachments :: "urlParser \<Rightarrow> Attachment list \<Rightarrow> string \<Rightarrow> ImageInfo list" where
  "ExtractImagesFromAttachments parse [] msgTS = []"
| "ExtractImagesFromAttachments parse (attachment # rest) msgTS =
     attachmentImages parse msgTS attachment @ ExtractImagesFromAttachments parse rest msgTS"

section \<open>Content sniffing\<close>

definition isValidImageData :: "bytes \<Rightarrow> bool" where
  "isValidImageData data =
     (if length data < 8 then False
      else if data ! 0 = CHR 0x89 \<and> data ! 1 = CHR 0x50 \<and> data ! 2 = CHR 0x4E \<and> data ! 3 = CHR 0x47
        then True
      else if data ! 0 = CHR 0xFF \<and> data ! 1 = CHR 0xD8 \<and> data ! 2 = CHR 0xFF then True
      else if length data \<ge> 6 \<and> take 3 data = ''GIF'' then True
      else if length data \<ge> 12 \<and> take 4 data = ''RIFF'' \<and> take 4 (drop 8 data) = ''WEBP''
        then True
      else False)"

definition isHTMLContent :: "bytes \<Rightarrow> bool" where
  "isHTMLContent data =
     (if length data < 15 then False
      else
        (let prefix = ToLower (take (min 500 (length data)) data) in
         if Contains prefix ''<!doctype'' \<or> Contains prefix ''<html'' \<or>
            Contains prefix ''<head'' \<or> Contains prefix ''<body''
         then True
         else if length data > 20 then
           (let suffix = ToLower (drop (length data - 20) data) in
            if Contains suffix ''</html>'' \<or> Contains suffix ''</body>'' then True else False)
         else False))"

section \<open>Download\<close>

text \<open>
  \<open>SlackFileDownloader.GetFileContext\<close> is an interface of the handler; what it returns
  depends on the network. A downloader is modelled as a function of a world \<open>'w\<close> and the URL,
  returning the error or the bytes it wrote, and the next world. The deadline of
  \<open>context.WithTimeout\<close> is part of the world: a fetch that times out is a fetch that returns
  an error.

  Each \<open>fmt.Errorf\<close> of \<open>DownloadImage\<close> is a constructor of \<open>error\<close>.
\<close>

type_synonym 'w downloader = "'w \<Rightarrow> string \<Rightarrow> (string + bytes) \<times> 'w"

datatype error =
    DownloadFailed string
  | SizeExceeded nat
  | AuthenticationFailed
  | InvalidImageFormat

definition DownloadImage :: "'w downloader \<Rightarrow> 'w \<Rightarrow> string \<Rightarrow> (error + bytes) \<times> 'w" where
  "DownloadImage getFile w url =
     (case getFile w url of
        (Inl err, w') \<Rightarrow> (Inl (DownloadFailed err), w')
      | (Inr data, w') \<Rightarrow>
          (if int (length data) > MaxImageSize then (Inl (SizeExceeded (length data)), w')
           else if \<not> isValidImageData data then
             (if isHTMLContent data then (Inl AuthenticationFailed, w')
              else (Inl InvalidImageFormat, w'))
           else (Inr data, w')))"

text \<open>
  The mock of the test suite (\<open>mockSlackFileDownloader\<close>), with the list of the URLs it was
  asked for as its world, as an instrumented stub records them.
\<close>

record mockSlackFileDownloader =
  files :: "(string \<times> bytes) list"
  err :: "string option"

definition GetFileContext :: "mockSlackFileDownloader \<Rightarrow> (string list) downloader" where
  "GetFileContext m asked downloadURL =
     (case err m of
        Some e \<Rightarrow> (Inl e, asked @ [downloadURL])
      | None \<Rightarrow>
          (case map_of (files m) downloadURL of
             Some data \<Rightarrow> (Inr data, asked @ [downloadURL])
           | None \<Rightarrow> (Inl (''file not found: '' @ downloadURL), asked @ [downloadURL])))"

section \<open>Compression\<close>

text \<open>
  \<open>png.Decode\<close> and \<open>jpeg.Encode\<close> belong to the Go standard library. They are parameters:
  a decoder from bytes to an image of some type \<open>'i\<close>, and an encoder of an image at a quality,
  each returning an error message or its result.
\<close>

type_synonym 'i pngDecoder = "bytes \<Rightarrow> string + 'i"
type_synonym 'i jpegEncoder = "'i \<Rightarrow> int \<Rightarrow> string + bytes"

record CompressImageResult =
  Data :: bytes
  MimeType :: string
  WasConverted :: bool
  OriginalSize :: int
  FinalSize :: int

definition compressPNGToJPEG :: "'i pngDecoder \<Rightarrow> 'i jpegEncoder \<Rightarrow> bytes \<Rightarrow> int \<Rightarrow> string + bytes" where
  "compressPNGToJPEG decode encode pngData quality =
     (case decode pngData of
        Inl e \<Rightarrow> Inl (''failed to decode PNG: '' @ e)
      | Inr img \<Rightarrow>
          (case encode img quality of
             Inl e \<Rightarrow> Inl (''failed to encode JPEG: '' @ e)
           | Inr buf \<Rightarrow> Inr buf))"

definition qualities :: "int list" where
  "qualities = [DefaultJPEGQuality, DefaultJPEGQuality - JPEGQualityStep, MinJPEGQuality]"

text \<open>The loop \<open>for _, quality := range qualities\<close>; falling off its end is the fallback.\<close>

fun tryQualities ::
  "'i pngDecoder \<Rightarrow> 'i jpegEncoder \<Rightarrow> bytes \<Rightarrow> int \<Rightarrow> CompressImageResult \<Rightarrow> int list
   \<Rightarrow> CompressImageResult" where
  "tryQualities decode encode data budget result [] = result"
| "tryQualities decode encode data budget result (quality # rest) =
     (case compressPNGToJPEG decode encode data quality of
        Inl e \<Rightarrow> tryQualities decode encode data budget result rest
      | Inr compressed \<Rightarrow>
          (if int (length compressed) \<le> budget \<or> quality = MinJPEGQuality then
             result\<lparr>Data := compressed, MimeType := ''image/jpeg'', WasConverted := True,
                    FinalSize := int (length compressed)\<rparr>
           else tryQualities decode encode data budget result rest))"

definition CompressImageIfNeeded ::
  "'i pngDecoder \<Rightarrow> 'i jpegEncoder \<Rightarrow> bytes \<Rightarrow> string \<Rightarrow> int \<Rightarrow> CompressImageResult" where
  "CompressImageIfNeeded decode encode data mimeType budget =
     (let result = \<lparr>Data = data, MimeType = mimeType, WasConverted = False,
                     OriginalSize = int (length data), FinalSize = int (length data)\<rparr>
      in if mimeType \<noteq> ''image/png'' then result
         else tryQualities decode encode data budget result qualities)"

section \<open>Download within a budget\<close>

text \<open>
  The two \<open>fmt.Sprintf\<close> warnings of \<open>DownloadImagesWithBudget\<close>, and the variables of its
  loop. The Go maps \<open>imageData\<close> and \<open>mimeTypeOverrides\<close> are association lists with distinct
  keys: \<open>m[k] = v\<close> is \<open>AList.update k v m\<close>, \<open>len(m)\<close> is \<open>length m\<close>.
\<close>

datatype warning =
    SkippedSizeExceedsLimit string int
  | SkippedError error

record budgetState =
  imageData :: "(string \<times> bytes) list"
  mimeTypeOverrides :: "(string \<times> string) list"
  skippedImages :: "ImageInfo list"
  warnings :: "warning list"
  cumulativeSize :: int
  budgetExceeded :: bool

definition initialBudgetState :: budgetState where
  "initialBudgetState =
     \<lparr>imageData = [], mimeTypeOverrides = [], skippedImages = [], warnings = [],
      cumulativeSize = 0, budgetExceeded = False\<rparr>"

definition imageKey :: "ImageInfo \<Rightarrow> string" where
  "imageKey img = (if FileID img = [] then URL img else FileID img)"

text \<open>The body of the loop, for one reference.\<close>

definition budgetStep ::
  "'w downloader \<Rightarrow> 'i pngDecoder \<Rightarrow> 'i jpegEncoder \<Rightarrow> int \<Rightarrow> budgetState \<Rightarrow> 'w \<Rightarrow> ImageInfo
   \<Rightarrow> budgetState \<times> 'w" where
  "budgetStep getFile decode encode budget st w img =
     (let key = imageKey img in
      if budgetExceeded st then (st\<lparr>skippedImages := skippedImages st @ [img]\<rparr>, w)
      else if Size img > MaxImageSize then
        (st\<lparr>warnings := warnings st @ [SkippedSizeExceedsLimit (Name img) (Size img)]\<rparr>, w)
      else
        (case DownloadImage getFile w (URL img) of
           (Inl e, w') \<Rightarrow> (st\<lparr>warnings := warnings st @ [SkippedError e]\<rparr>, w')
         | (Inr data0, w') \<Rightarrow>
             (let remainingBudget = budget - cumulativeSize st;
                  compResult = CompressImageIfNeeded decode encode data0 (ImageInfo.MimeType img)
                                 remainingBudget;
                  data = Data compResult;
                  overrides = (if WasConverted compResult
                               then AList.update key (MimeType compResult) (mimeTypeOverrides st)
                               else mimeTypeOverrides st)
              in if cumulativeSize st + int (length data) > budget then
                   (st\<lparr>mimeTypeOverrides := overrides, budgetExceeded := True,
                       skippedImages := skippedImages st @ [img]\<rparr>, w')
                 else
                   (st\<lparr>imageData := AList.update key data (imageData st),
                       mimeTypeOverrides := overrides,
                       cumulativeSize := cumulativeSize st + int (length data)\<rparr>, w'))))"

fun budgetLoop ::
  "'w downloader \<Rightarrow> 'i pngDecoder \<Rightarrow> 'i jpegEncoder \<Rightarrow> int \<Rightarrow> budgetState \<Rightarrow> 'w \<Rightarrow> ImageInfo list
   \<Rightarrow> budgetState \<times> 'w" where
  "budgetLoop getFile decode encode budget st w [] = (st, w)"
| "budgetLoop getFile decode encode budget st w (img # rest) =
     (case budgetStep getFile decode encode budget st w img of
        (st', w') \<Rightarrow> budgetLoop getFile decode encode budget st' w' rest)"

text \<open>
  \<open>DownloadImagesWithBudget\<close> returns the two maps, the skipped references and the
  warnings; the model returns the world after the last fetch as well.
\<close>

type_synonym budgetResult =
  "(string \<times> bytes) list \<times> (string \<times> string) list \<times> ImageInfo list \<times> warning list"

definition DownloadImagesWithBudget ::
  "'w downloader \<Rightarrow> 'i pngDecoder \<Rightarrow> 'i jpegEncoder \<Rightarrow> 'w \<Rightarrow> ImageInfo list \<Rightarrow> int
   \<Rightarrow> budgetResult \<times> 'w" where
  "DownloadImagesWithBudget getFile decode encode w images0 budget =
     (let images = (if length images0 > MaxImagesPerCall then take MaxImagesPerCall images0
                    else images0)
      in if length images = 0 then (([], [], [], []), w)
         else
           (case budgetLoop getFile decode encode budget initialBudgetState w images of
              (st, w') \<Rightarrow>
                ((imageData st, mimeTypeOverrides st, skippedImages st, warnings st), w')))"

section \<open>Fixtures and the wording of the specification\<close>

text \<open>
  A parser for concrete examples: \<open>url.Parse\<close> on an absolute URL \<open>scheme://host/path\<close>
  whose host and path hold no port, user information, escape, query or fragment. The host is
  the text between \<open>://\<close> and the next slash, the path is the rest. Other inputs are outside
  this fixture. The general theorems below hold for every parser.
\<close>

definition parseAbsolute :: urlParser where
  "parseAbsolute rawURL =
     (let scheme = takeWhile (\<lambda>c. c \<noteq> CHR '':'') rawURL;
          rest = drop (length scheme) rawURL
      in if scheme \<noteq> [] \<and> HasPrefix rest ''://'' then
           (let hostPath = drop 3 rest;
                host = takeWhile (\<lambda>c. c \<noteq> CHR ''/'') hostPath
            in Some \<lparr>Hostname = host, Path = drop (length host) hostPath\<rparr>)
         else None)"

text \<open>
  The magic-byte classification in the words of the specification: the PNG signature of eight
  fixed bytes, the JPEG signature of three, the prefix \<open>GIF\<close>, \<open>RIFF\<close> at offset 0 with
  \<open>WEBP\<close> at offset 8, and nothing shorter than eight bytes.
\<close>

definition pngSignature :: bytes where
  "pngSignature = [CHR 0x89, CHR 0x50, CHR 0x4E, CHR 0x47, CHR 0x0D, CHR 0x0A, CHR 0x1A, CHR 0x0A]"

definition jpegSignature :: bytes where
  "jpegSignature = [CHR 0xFF, CHR 0xD8, CHR 0xFF]"

definition specValidImageData :: "bytes \<Rightarrow> bool" where
  "specValidImageData data =
     (\<not> length data < 8 \<and>
      (prefix pngSignature data \<or> prefix jpegSignature data \<or> prefix ''GIF'' data \<or>
       (prefix ''RIFF'' data \<and> prefix ''WEBP'' (drop 8 data))))"

text \<open>
  HTML detection in the words of the specification: the first 500 bytes, lowercased, contain
  one of the four opening markers, or the last 20 bytes (lowercased as well) contain one of
  the two closing tags.
\<close>

definition specIsHTML :: "bytes \<Rightarrow> bool" where
  "specIsHTML data =
     (let first500 = ToLower (take 500 data);
          last20 = ToLower (drop (length data - 20) data)
      in Contains first500 ''<!doctype'' \<or> Contains first500 ''<html'' \<or>
         Contains first500 ''<head'' \<or> Contains first500 ''<body'' \<or>
         Contains last20 ''</html>'' \<or> Contains last20 ''</body>'')"

definition loginPage :: bytes where
  "loginPage = ''<!DOCTYPE html><html><head><title>Sign in</title></head></html>''"

text \<open>The \<open>ImageInfo\<close> literal that \<open>ExtractImagesFromAttachments\<close> builds from a URL.\<close>

definition attachmentRef :: "urlParser \<Rightarrow> string \<Rightarrow> string \<Rightarrow> ImageInfo" where
  "attachmentRef parse msgTS u =
     \<lparr>FileID = [], Name = extractFilenameFromURL parse u,
      MimeType = guessMimeTypeFromURL parse u, Size = 0, URL = u, MsgTS = msgTS\<rparr>"

text \<open>
  Stand-ins for \<open>png.Decode\<close> and \<open>jpeg.Encode\<close> in concrete examples: the decoder accepts
  data that starts with the PNG signature and returns what follows it; the encoder refuses an
  empty image, and otherwise writes the JPEG signature and keeps \<open>quality div 10\<close> bytes of
  the image, so a lower quality is never larger. The general theorems below hold for every
  decoder and encoder.
\<close>

definition stubDecode :: "bytes pngDecoder" where
  "stubDecode data =
     (if prefix pngSignature data then Inr (drop 8 data) else Inl ''not a PNG file'')"

definition stubEncode :: "bytes jpegEncoder" where
  "stubEncode img quality =
     (if img = [] then Inl ''image is empty''
      else Inr (jpegSignature @ take (nat quality div 10) img))"

text \<open>The two shapes of a \<open>CompressImageResult\<close>: the input as it came, and a transcoded one.\<close>

definition unchangedResult :: "bytes \<Rightarrow> string \<Rightarrow> CompressImageResult" where
  "unchangedResult data mimeType =
     \<lparr>Data = data, MimeType = mimeType, WasConverted = False,
      OriginalSize = int (length data), FinalSize = int (length data)\<rparr>"

definition convertedResult :: "bytes \<Rightarrow> bytes \<Rightarrow> CompressImageResult" where
  "convertedResult data compressed =
     \<lparr>Data = compressed, MimeType = ''image/jpeg'', WasConverted = True,
      OriginalSize = int (length data), FinalSize = int (length compressed)\<rparr>"

text \<open>The encoding at a quality succeeds and fits the budget.\<close>

definition fitsBudget :: "'i pngDecoder \<Rightarrow> 'i jpegEncoder \<Rightarrow> bytes \<Rightarrow> int \<Rightarrow> int \<Rightarrow> bool" where
  "fitsBudget decode encode data quality budget =
     (case compressPNGToJPEG decode encode data quality of
        Inl e \<Rightarrow> False
      | Inr compressed \<Rightarrow> int (length compressed) \<le> budget)"

text \<open>The same on the encoder alone: encoding the decoded image at a quality succeeds and fits.\<close>

definition encodeFits :: "'i jpegEncoder \<Rightarrow> 'i \<Rightarrow> int \<Rightarrow> int \<Rightarrow> bool" where
  "encodeFits encode img quality budget =
     (case encode img quality of
        Inl e \<Rightarrow> False
      | Inr compressed \<Rightarrow> int (length compressed) \<le> budget)"

text \<open>
  The fixtures of \<open>TestUnitDownloadImagesWithBudget\<close>: \<open>makePNG\<close> (a zeroed buffer with the
  PNG signature copied over its start), a reference with a file ID and a declared size and no
  declared MIME type, and a mock that serves \<open>makePNG n\<close> for each listed file.
\<close>

definition makePNG :: "nat \<Rightarrow> bytes" where
  "makePNG n = take n (pngSignature @ replicate (n - 8) (CHR 0x00))"

definition testImage :: "string \<Rightarrow> int \<Rightarrow> ImageInfo" where
  "testImage fileID declared =
     \<lparr>FileID = fileID, Name = fileID @ ''.png'', MimeType = [], Size = declared,
      URL = ''https://files.slack.com/'' @ fileID, MsgTS = []\<rparr>"

definition testMock :: "(string \<times> nat) list \<Rightarrow> mockSlackFileDownloader" where
  "testMock sized =
     \<lparr>files = map (\<lambda>(fileID, n). (''https://files.slack.com/'' @ fileID, makePNG n)) sized,
      err = None\<rparr>"

definition threeFiles :: mockSlackFileDownloader where
  "threeFiles = testMock [(''F001'', 1000), (''F002'', 1000), (''F003'', 1000)]"

text \<open>
  The sum of the byte lengths of the included images, and the invariant of the loop of
  \<open>DownloadImagesWithBudget\<close>: the included bytes are at most the running total, and the
  running total is at most the budget as soon as something is included.
\<close>

definition includedBytes :: "(string \<times> bytes) list \<Rightarrow> int" where
  "includedBytes m = sum_list (map (\<lambda>kv. int (length (snd kv))) m)"

definition withinBudget :: "int \<Rightarrow> budgetState \<Rightarrow> bool" where
  "withinBudget budget st =
     (includedBytes (imageData st) \<le> cumulativeSize st \<and>
      (imageData st = [] \<or> cumulativeSize st \<le> budget))"

section \<open>Strings: the Go functions and the list library\<close>

lemma HasSuffix_iff: "HasSuffix s suf \<longleftrightarrow> (\<exists>p. s = p @ suf)"
proof
  assume "HasSuffix s suf"
  then have "s = take (length s - length suf) s @ suf"
    by (metis HasSuffix_def append_take_drop_id)
  then show "\<exists>p. s = p @ suf" ..
next
  assume "\<exists>p. s = p @ suf"
  then show "HasSuffix s suf" by (auto simp: HasSuffix_def)
qed

lemma HasPrefix_iff: "HasPrefix s pre \<longleftrightarrow> prefix pre s"
proof
  assume "HasPrefix s pre"
  then have "s = pre @ drop (length pre) s"
    by (metis HasPrefix_def append_take_drop_id)
  then show "prefix pre s" by (metis prefixI)
next
  assume "prefix pre s"
  then show "HasPrefix s pre" by (auto simp: HasPrefix_def prefix_def)
qed

lemma take_eq_iff_prefix: "length p = n \<Longrightarrow> take n s = p \<longleftrightarrow> prefix p s"
proof
  assume "length p = n" "take n s = p"
  then have "s = p @ drop n s" by (metis append_take_drop_id)
  then show "prefix p s" by (metis prefixI)
next
  assume "length p = n" "prefix p s"
  then show "take n s = p" by (auto simp: prefix_def)
qed

section \<open>The host allow-list\<close>

text \<open>The result of the range loop depends on the set of keys only, not on their order.\<close>

lemma rangeSubdomain_iff:
  "rangeSubdomain host ks \<longleftrightarrow> (\<exists>allowed \<in> set ks. HasSuffix host (''.'' @ allowed))"
  by (induction ks) auto

lemma lookup_allowedImageHosts:
  "lookupBool allowedImageHosts host \<longleftrightarrow>
     host \<in> {''files.slack.com'', ''slack-edge.com'', ''avatars.slack-edge.com''}"
  by (simp add: lookupBool_def allowedImageHosts_def)

lemma keys_allowedImageHosts:
  "set (map fst allowedImageHosts) =
     {''files.slack.com'', ''slack-edge.com'', ''avatars.slack-edge.com''}"
  by (simp add: allowedImageHosts_def)

lemma isAllowedImageHost_Some:
  "parse rawURL = Some parsed \<Longrightarrow>
   isAllowedImageHost parse rawURL \<longleftrightarrow>
     (Hostname parsed \<in> {''files.slack.com'', ''slack-edge.com'', ''avatars.slack-edge.com''} \<or>
      (\<exists>allowed \<in> {''files.slack.com'', ''slack-edge.com'', ''avatars.slack-edge.com''}.
         \<exists>sub. Hostname parsed = sub @ ''.'' @ allowed))"
proof -
  assume p: "parse rawURL = Some parsed"
  have "isAllowedImageHost parse rawURL \<longleftrightarrow>
      (lookupBool allowedImageHosts (Hostname parsed) \<or>
       rangeSubdomain (Hostname parsed) (map fst allowedImageHosts))"
    by (auto simp: isAllowedImageHost_def p Let_def)
  then show ?thesis
    by (simp only: lookup_allowedImageHosts rangeSubdomain_iff keys_allowedImageHosts
        HasSuffix_iff)
qed

lemma isAllowedImageHost_None: "parse rawURL = None \<Longrightarrow> \<not> isAllowedImageHost parse rawURL"
  by (simp add: isAllowedImageHost_def)

text \<open>
  C1. For every URL string and every parser, \<open>isAllowedImageHost\<close> accepts the URL if and only
  if it parses and its hostname is an entry of the allowed-host table or ends with a dot
  followed by an entry. A URL with host \<open>evil.com\<close> and path \<open>/files.slack.com/fake\<close> and a
  URL with host \<open>files.slack.com.evil.com\<close> are rejected; a URL with host
  \<open>files.slack.com\<close> and one with host \<open>cdn.slack-edge.com\<close> are accepted.
\<close>

theorem isAllowedImageHost_iff:
  "(isAllowedImageHost parse rawURL \<longleftrightarrow>
      (\<exists>parsed. parse rawURL = Some parsed \<and>
         (Hostname parsed \<in> {''files.slack.com'', ''slack-edge.com'', ''avatars.slack-edge.com''} \<or>
          (\<exists>allowed \<in> {''files.slack.com'', ''slack-edge.com'', ''avatars.slack-edge.com''}.
             \<exists>sub. Hostname parsed = sub @ ''.'' @ allowed)))) \<and>
   (parse rawURL = Some \<lparr>Hostname = ''evil.com'', Path = ''/files.slack.com/fake''\<rparr>
      \<longrightarrow> \<not> isAllowedImageHost parse rawURL) \<and>
   (parse rawURL = Some \<lparr>Hostname = ''files.slack.com.evil.com'', Path = path\<rparr>
      \<longrightarrow> \<not> isAllowedImageHost parse rawURL) \<and>
   (parse rawURL = Some \<lparr>Hostname = ''files.slack.com'', Path = path\<rparr>
      \<longrightarrow> isAllowedImageHost parse rawURL) \<and>
   (parse rawURL = Some \<lparr>Hostname = ''cdn.slack-edge.com'', Path = path\<rparr>
      \<longrightarrow> isAllowedImageHost parse rawURL)"
proof (intro conjI impI)
  show "isAllowedImageHost parse rawURL \<longleftrightarrow>
      (\<exists>parsed. parse rawURL = Some parsed \<and>
         (Hostname parsed \<in> {''files.slack.com'', ''slack-edge.com'', ''avatars.slack-edge.com''} \<or>
          (\<exists>allowed \<in> {''files.slack.com'', ''slack-edge.com'', ''avatars.slack-edge.com''}.
             \<exists>sub. Hostname parsed = sub @ ''.'' @ allowed)))"
  proof (cases "parse rawURL")
    case None
    then show ?thesis using isAllowedImageHost_None [of parse rawURL] by simp
  next
    case (Some parsed)
    then show ?thesis using isAllowedImageHost_Some [of parse rawURL parsed] by simp
  qed
next
  assume p: "parse rawURL = Some \<lparr>Hostname = ''evil.com'', Path = ''/files.slack.com/fake''\<rparr>"
  show "\<not> isAllowedImageHost parse rawURL"
    by (simp add: isAllowedImageHost_def p lookupBool_def allowedImageHosts_def HasSuffix_def)
next
  assume p: "parse rawURL = Some \<lparr>Hostname = ''files.slack.com.evil.com'', Path = path\<rparr>"
  show "\<not> isAllowedImageHost parse rawURL"
    by (simp add: isAllowedImageHost_def p lookupBool_def allowedImageHosts_def HasSuffix_def)
next
  assume p: "parse rawURL = Some \<lparr>Hostname = ''files.slack.com'', Path = path\<rparr>"
  show "isAllowedImageHost parse rawURL"
    by (simp add: isAllowedImageHost_def p lookupBool_def allowedImageHosts_def HasSuffix_def)
next
  assume p: "parse rawURL = Some \<lparr>Hostname = ''cdn.slack-edge.com'', Path = path\<rparr>"
  show "isAllowedImageHost parse rawURL"
    by (simp add: isAllowedImageHost_def p lookupBool_def allowedImageHosts_def HasSuffix_def)
qed

text \<open>The four examples, on the URLs of the test suite.\<close>

theorem isAllowedImageHost_iff_witness:
  "(parseAbsolute ''https://evil.com/files.slack.com/fake'' =
      Some \<lparr>Hostname = ''evil.com'', Path = ''/files.slack.com/fake''\<rparr> \<and>
    \<not> isAllowedImageHost parseAbsolute ''https://evil.com/files.slack.com/fake'') \<and>
   (parseAbsolute ''https://files.slack.com.evil.com/image.png'' =
      Some \<lparr>Hostname = ''files.slack.com.evil.com'', Path = ''/image.png''\<rparr> \<and>
    \<not> isAllowedImageHost parseAbsolute ''https://files.slack.com.evil.com/image.png'') \<and>
   (parseAbsolute ''https://files.slack.com/files/123/image.png'' =
      Some \<lparr>Hostname = ''files.slack.com'', Path = ''/files/123/image.png''\<rparr> \<and>
    isAllowedImageHost parseAbsolute ''https://files.slack.com/files/123/image.png'') \<and>
   (parseAbsolute ''https://cdn.slack-edge.com/img.png'' =
      Some \<lparr>Hostname = ''cdn.slack-edge.com'', Path = ''/img.png''\<rparr> \<and>
    isAllowedImageHost parseAbsolute ''https://cdn.slack-edge.com/img.png'')"
proof -
  have p1: "parseAbsolute ''https://evil.com/files.slack.com/fake'' =
      Some \<lparr>Hostname = ''evil.com'', Path = ''/files.slack.com/fake''\<rparr>"
    by (simp add: parseAbsolute_def HasPrefix_def)
  have p2: "parseAbsolute ''https://files.slack.com.evil.com/image.png'' =
      Some \<lparr>Hostname = ''files.slack.com.evil.com'', Path = ''/image.png''\<rparr>"
    by (simp add: parseAbsolute_def HasPrefix_def)
  have p3: "parseAbsolute ''https://files.slack.com/files/123/image.png'' =
      Some \<lparr>Hostname = ''files.slack.com'', Path = ''/files/123/image.png''\<rparr>"
    by (simp add: parseAbsolute_def HasPrefix_def)
  have p4: "parseAbsolute ''https://cdn.slack-edge.com/img.png'' =
      Some \<lparr>Hostname = ''cdn.slack-edge.com'', Path = ''/img.png''\<rparr>"
    by (simp add: parseAbsolute_def HasPrefix_def)
  note c1 = isAllowedImageHost_iff [of parseAbsolute "''https://evil.com/files.slack.com/fake''",
      THEN conjunct2, THEN conjunct1, THEN mp, OF p1]
  note c2 = isAllowedImageHost_iff [of parseAbsolute "''https://files.slack.com.evil.com/image.png''",
      THEN conjunct2, THEN conjunct2, THEN conjunct1, THEN mp, OF p2]
  note c3 = isAllowedImageHost_iff [of parseAbsolute "''https://files.slack.com/files/123/image.png''",
      THEN conjunct2, THEN conjunct2, THEN conjunct2, THEN conjunct1, THEN mp, OF p3]
  note c4 = isAllowedImageHost_iff [of parseAbsolute "''https://cdn.slack-edge.com/img.png''",
      THEN conjunct2, THEN conjunct2, THEN conjunct2, THEN conjunct2, THEN mp, OF p4]
  show ?thesis
    by (intro conjI p1 p2 p3 p4 c1 c2 c3 c4)
qed

section \<open>Magic bytes\<close>

lemma eight_bytes:
  assumes "8 \<le> length (data :: bytes)"
  obtains b0 b1 b2 b3 b4 b5 b6 b7 rest where "data = b0 # b1 # b2 # b3 # b4 # b5 # b6 # b7 # rest"
proof -
  from assms have "Suc (Suc (Suc (Suc (Suc (Suc (Suc (Suc 0))))))) \<le> length data" by simp
  then show thesis using that by (auto simp: Suc_le_length_iff)
qed

text \<open>
  C6, as the code has it. \<open>isValidImageData\<close> accepts a buffer if and only if it has at least
  eight bytes and starts with the first four bytes of the PNG signature (\<open>89 50 4E 47\<close>), or
  with the three bytes of the JPEG signature, or with \<open>GIF\<close>, or has \<open>RIFF\<close> at offset 0 and
  \<open>WEBP\<close> at offset 8. Every buffer shorter than eight bytes is invalid.
\<close>

theorem isValidImageData_signatures:
  "isValidImageData data \<longleftrightarrow>
     8 \<le> length data \<and>
     (prefix [CHR 0x89, CHR 0x50, CHR 0x4E, CHR 0x47] data \<or>
      prefix [CHR 0xFF, CHR 0xD8, CHR 0xFF] data \<or>
      prefix ''GIF'' data \<or>
      (prefix ''RIFF'' data \<and> prefix ''WEBP'' (drop 8 data)))"
proof (cases "8 \<le> length data")
  case False
  then show ?thesis by (simp add: isValidImageData_def)
next
  case True
  then obtain b0 b1 b2 b3 b4 b5 b6 b7 rest
    where d: "data = b0 # b1 # b2 # b3 # b4 # b5 # b6 # b7 # rest"
    by (rule eight_bytes)
  have png: "(data ! 0 = CHR 0x89 \<and> data ! 1 = CHR 0x50 \<and> data ! 2 = CHR 0x4E \<and> data ! 3 = CHR 0x47)
      \<longleftrightarrow> prefix [CHR 0x89, CHR 0x50, CHR 0x4E, CHR 0x47] data"
    by (auto simp: d)
  have jpg: "(data ! 0 = CHR 0xFF \<and> data ! 1 = CHR 0xD8 \<and> data ! 2 = CHR 0xFF)
      \<longleftrightarrow> prefix [CHR 0xFF, CHR 0xD8, CHR 0xFF] data"
    by (auto simp: d)
  have gif: "(6 \<le> length data \<and> take 3 data = ''GIF'') \<longleftrightarrow> prefix ''GIF'' data"
    using True take_eq_iff_prefix [of "''GIF''" 3 data] by simp
  have webp: "(12 \<le> length data \<and> take 4 data = ''RIFF'' \<and> take 4 (drop 8 data) = ''WEBP'')
      \<longleftrightarrow> (prefix ''RIFF'' data \<and> prefix ''WEBP'' (drop 8 data))"
    using take_eq_iff_prefix [of "''RIFF''" 4 data] take_eq_iff_prefix [of "''WEBP''" 4 "drop 8 data"]
    by (auto simp: d prefix_def)
  have len: "\<not> length data < 8" using True by simp
  show ?thesis
    unfolding isValidImageData_def png jpg gif webp using True len by auto
qed

text \<open>
  C6, as stated, fails: a buffer that starts with \<open>89 50 4E 47\<close> followed by four zero bytes
  is accepted, though it does not carry the PNG signature of eight fixed bytes (nor any of the
  other signatures).
\<close>

theorem isValidImageData_png_counterexample:
  "isValidImageData [CHR 0x89, CHR 0x50, CHR 0x4E, CHR 0x47, CHR 0x00, CHR 0x00, CHR 0x00, CHR 0x00] \<and>
   \<not> specValidImageData [CHR 0x89, CHR 0x50, CHR 0x4E, CHR 0x47, CHR 0x00, CHR 0x00, CHR 0x00, CHR 0x00]"
  by (simp add: isValidImageData_def specValidImageData_def pngSignature_def jpegSignature_def)

section \<open>HTML in place of an image\<close>

lemma Index_ge: "- 1 \<le> Index s sub"
  by (induction s) (auto simp: Let_def)

text \<open>\<open>strings.Contains\<close> is the contiguous-sublist relation of the list library.\<close>

lemma Contains_iff_sublist: "Contains s sub \<longleftrightarrow> sublist sub s"
proof (induction s)
  case Nil
  then show ?case by (simp add: Contains_def)
next
  case (Cons c cs)
  have "Index cs sub \<noteq> - 1 \<longleftrightarrow> 0 \<le> Index cs sub"
    using Index_ge [of cs sub] by arith
  then have "Contains (c # cs) sub \<longleftrightarrow> HasPrefix (c # cs) sub \<or> Contains cs sub"
    by (auto simp: Contains_def Let_def)
  then show ?case
    using Cons.IH by (simp add: HasPrefix_iff sublist_Cons_right)
qed

lemma isHTMLContent_iff:
  "isHTMLContent data \<longleftrightarrow>
     15 \<le> length data \<and>
     (sublist ''<!doctype'' (ToLower (take 500 data)) \<or>
      sublist ''<html'' (ToLower (take 500 data)) \<or>
      sublist ''<head'' (ToLower (take 500 data)) \<or>
      sublist ''<body'' (ToLower (take 500 data)) \<or>
      20 < length data \<and>
      (sublist ''</html>'' (ToLower (drop (length data - 20) data)) \<or>
       sublist ''</body>'' (ToLower (drop (length data - 20) data))))"
proof -
  have t: "take (min 500 (length data)) data = take 500 data"
    by (simp add: min_def)
  show ?thesis
    unfolding isHTMLContent_def Let_def t Contains_iff_sublist by auto
qed

text \<open>
  C7, as the code has it. When the download succeeds with at most \<open>MaxImageSize\<close> bytes that
  fail the magic-byte classification, \<open>DownloadImage\<close> returns the authentication-failure
  error exactly when the buffer has at least 15 bytes and either its first 500 bytes,
  lowercased, contain \<open><!doctype\<close>, \<open><html\<close>, \<open><head\<close> or \<open><body\<close>, or it has more than
  20 bytes and its last 20 bytes, lowercased, contain \<open></html>\<close> or \<open></body>\<close>. Otherwise
  it returns the generic invalid-format error. The two errors are different values.
\<close>

theorem DownloadImage_invalid_data:
  assumes "getFile w url = (Inr data, w')"
    and "int (length data) \<le> MaxImageSize"
    and "\<not> isValidImageData data"
  shows "(DownloadImage getFile w url = (Inl AuthenticationFailed, w') \<longleftrightarrow>
            15 \<le> length data \<and>
            (sublist ''<!doctype'' (ToLower (take 500 data)) \<or>
             sublist ''<html'' (ToLower (take 500 data)) \<or>
             sublist ''<head'' (ToLower (take 500 data)) \<or>
             sublist ''<body'' (ToLower (take 500 data)) \<or>
             20 < length data \<and>
             (sublist ''</html>'' (ToLower (drop (length data - 20) data)) \<or>
              sublist ''</body>'' (ToLower (drop (length data - 20) data))))) \<and>
         (DownloadImage getFile w url \<noteq> (Inl AuthenticationFailed, w') \<longleftrightarrow>
            DownloadImage getFile w url = (Inl InvalidImageFormat, w')) \<and>
         AuthenticationFailed \<noteq> InvalidImageFormat"
  using assms by (simp add: DownloadImage_def isHTMLContent_iff [symmetric])

text \<open>A login page served in place of the image, through the mock of the test suite.\<close>

theorem DownloadImage_invalid_data_witness:
  "GetFileContext \<lparr>files = [(''https://files.slack.com/F001'', loginPage)], err = None\<rparr> []
      ''https://files.slack.com/F001'' = (Inr loginPage, [''https://files.slack.com/F001'']) \<and>
   int (length loginPage) \<le> MaxImageSize \<and>
   \<not> isValidImageData loginPage \<and>
   DownloadImage (GetFileContext \<lparr>files = [(''https://files.slack.com/F001'', loginPage)], err = None\<rparr>)
      [] ''https://files.slack.com/F001'' = (Inl AuthenticationFailed, [''https://files.slack.com/F001''])"
proof -
  let ?m = "\<lparr>files = [(''https://files.slack.com/F001'', loginPage)], err = None\<rparr>"
  let ?u = "''https://files.slack.com/F001''"
  have f: "GetFileContext ?m [] ?u = (Inr loginPage, [?u])"
    by (simp add: GetFileContext_def)
  have l: "int (length loginPage) \<le> MaxImageSize"
    by (simp add: loginPage_def MaxImageSize_def)
  have v: "\<not> isValidImageData loginPage"
    by (simp add: loginPage_def isValidImageData_def)
  have h: "sublist ''<!doctype'' (ToLower (take 500 loginPage))"
    unfolding Contains_iff_sublist [symmetric] loginPage_def by code_simp
  have n: "15 \<le> length loginPage"
    by (simp add: loginPage_def)
  from DownloadImage_invalid_data [of "GetFileContext ?m" "[]" ?u loginPage "[?u]", OF f l v] h n
  have "DownloadImage (GetFileContext ?m) [] ?u = (Inl AuthenticationFailed, [?u])"
    by simp
  with f l v show ?thesis by simp
qed

text \<open>
  C7, as stated, fails on short buffers. The 13 bytes \<open><html></html>\<close> contain an opening
  marker, and the 16 bytes \<open>Sign in. </html>\<close> end with a closing tag, so HTML detection
  as the claim defines it fires on both; neither is an image, and \<open>DownloadImage\<close> returns
  the generic error for both: the first is shorter than 15 bytes, and the closing tags are
  looked for only in buffers longer than 20 bytes.
\<close>

theorem DownloadImage_html_counterexample:
  "specIsHTML ''<html></html>'' \<and>
   \<not> isValidImageData ''<html></html>'' \<and>
   DownloadImage (GetFileContext \<lparr>files = [(''https://files.slack.com/F001'', ''<html></html>'')], err = None\<rparr>)
      [] ''https://files.slack.com/F001'' = (Inl InvalidImageFormat, [''https://files.slack.com/F001'']) \<and>
   specIsHTML ''Sign in. </html>'' \<and>
   \<not> isValidImageData ''Sign in. </html>'' \<and>
   DownloadImage (GetFileContext \<lparr>files = [(''https://files.slack.com/F002'', ''Sign in. </html>'')], err = None\<rparr>)
      [] ''https://files.slack.com/F002'' = (Inl InvalidImageFormat, [''https://files.slack.com/F002''])"
  by code_simp

section \<open>References from attachments\<close>

text \<open>A URL that passes the host check parses, so its guessed MIME type is a supported one.\<close>

lemma isImageMimeType_guess:
  assumes "isAllowedImageHost parse u"
  shows "isImageMimeType (guessMimeTypeFromURL parse u)"
proof -
  from assms obtain parsed where p: "parse u = Some parsed"
    by (auto simp: isAllowedImageHost_def split: option.splits)
  have s: "isImageMimeType ''image/png''" "isImageMimeType ''image/jpeg''"
    "isImageMimeType ''image/gif''" "isImageMimeType ''image/webp''"
    by code_simp+
  show ?thesis
    using s by (simp add: guessMimeTypeFromURL_def p Let_def)
qed

lemma attachmentImages_cases:
  "attachmentImages parse msgTS a =
     (if ImageURL a \<noteq> [] \<and> isAllowedImageHost parse (ImageURL a)
        then [attachmentRef parse msgTS (ImageURL a)]
      else if ThumbURL a \<noteq> [] \<and> isAllowedImageHost parse (ThumbURL a)
        then [attachmentRef parse msgTS (ThumbURL a)]
      else [])"
  using isImageMimeType_guess [of parse "ImageURL a"] isImageMimeType_guess [of parse "ThumbURL a"]
  by (simp add: attachmentImages_def attachmentRef_def Let_def)

text \<open>
  C5, as the code has it. Every attachment contributes at most one reference: the full-size
  one when the full-size URL is non-empty and host-allowed; otherwise the thumbnail one when
  the thumbnail URL is non-empty and host-allowed; otherwise none. The thumbnail is the
  fallback both when the full-size URL is absent and when it is non-empty but host-disallowed;
  a non-empty, host-allowed thumbnail URL is passed over only when the full-size URL is
  non-empty and host-allowed.
\<close>

theorem ExtractImagesFromAttachments_thumbnail:
  "ExtractImagesFromAttachments parse attachments msgTS =
     concat (map (\<lambda>a.
       if ImageURL a \<noteq> [] \<and> isAllowedImageHost parse (ImageURL a)
         then [attachmentRef parse msgTS (ImageURL a)]
       else if ThumbURL a \<noteq> [] \<and> isAllowedImageHost parse (ThumbURL a)
         then [attachmentRef parse msgTS (ThumbURL a)]
       else []) attachments)"
  by (induction attachments) (simp_all add: attachmentImages_cases)

text \<open>
  C5, as stated, fails on the attachment of the test "blocked ImageURL but allowed ThumbURL":
  the full-size URL is non-empty and host-disallowed, and the thumbnail reference is produced.
\<close>

theorem ExtractImagesFromAttachments_thumbnail_counterexample:
  "ImageURL \<lparr>ImageURL = ''https://external.com/image.png'',
             ThumbURL = ''https://files.slack.com/files/123/thumb.png''\<rparr> \<noteq> [] \<and>
   \<not> isAllowedImageHost parseAbsolute ''https://external.com/image.png'' \<and>
   ExtractImagesFromAttachments parseAbsolute
     [\<lparr>ImageURL = ''https://external.com/image.png'',
       ThumbURL = ''https://files.slack.com/files/123/thumb.png''\<rparr>] ''1234567890.123456'' =
     [\<lparr>FileID = [], Name = ''thumb.png'', MimeType = ''image/png'', Size = 0,
       URL = ''https://files.slack.com/files/123/thumb.png'', MsgTS = ''1234567890.123456''\<rparr>]"
  by code_simp

section \<open>Compression\<close>

lemma qualities_eq: "qualities = [80, 60, 40]"
  by (simp add: qualities_def DefaultJPEGQuality_def JPEGQualityStep_def MinJPEGQuality_def)

lemma CompressImageIfNeeded_other:
  "mimeType \<noteq> ''image/png'' \<Longrightarrow>
   CompressImageIfNeeded decode encode data mimeType budget = unchangedResult data mimeType"
  by (simp add: CompressImageIfNeeded_def unchangedResult_def)

lemma CompressImageIfNeeded_png:
  "CompressImageIfNeeded decode encode data ''image/png'' budget =
     (if fitsBudget decode encode data 80 budget then
        (case compressPNGToJPEG decode encode data 80 of Inr c \<Rightarrow> convertedResult data c)
      else if fitsBudget decode encode data 60 budget then
        (case compressPNGToJPEG decode encode data 60 of Inr c \<Rightarrow> convertedResult data c)
      else (case compressPNGToJPEG decode encode data 40 of
              Inl e \<Rightarrow> unchangedResult data ''image/png''
            | Inr c \<Rightarrow> convertedResult data c))"
  by (simp add: CompressImageIfNeeded_def qualities_eq fitsBudget_def MinJPEGQuality_def
      unchangedResult_def convertedResult_def Let_def split: sum.splits)

lemma compressPNGToJPEG_undecoded:
  "decode pngData = Inl e \<Longrightarrow>
   compressPNGToJPEG decode encode pngData quality = Inl (''failed to decode PNG: '' @ e)"
  by (simp add: compressPNGToJPEG_def)

lemma compressPNGToJPEG_decoded:
  "decode pngData = Inr img \<Longrightarrow>
   compressPNGToJPEG decode encode pngData quality =
     (case encode img quality of
        Inl e \<Rightarrow> Inl (''failed to encode JPEG: '' @ e)
      | Inr buf \<Rightarrow> Inr buf)"
  by (simp add: compressPNGToJPEG_def)

lemma fitsBudget_decoded:
  "decode data = Inr img \<Longrightarrow>
   fitsBudget decode encode data quality budget = encodeFits encode img quality budget"
  by (simp add: fitsBudget_def encodeFits_def compressPNGToJPEG_decoded split: sum.splits)

lemma CompressImageIfNeeded_undecoded:
  "decode data = Inl e \<Longrightarrow>
   CompressImageIfNeeded decode encode data ''image/png'' budget =
     unchangedResult data ''image/png''"
  by (simp add: CompressImageIfNeeded_png fitsBudget_def compressPNGToJPEG_undecoded)

lemma CompressImageIfNeeded_decoded:
  "decode data = Inr img \<Longrightarrow>
   CompressImageIfNeeded decode encode data ''image/png'' budget =
     (if encodeFits encode img 80 budget then
        (case encode img 80 of Inr c \<Rightarrow> convertedResult data c)
      else if encodeFits encode img 60 budget then
        (case encode img 60 of Inr c \<Rightarrow> convertedResult data c)
      else (case encode img 40 of
              Inl e \<Rightarrow> unchangedResult data ''image/png''
            | Inr c \<Rightarrow> convertedResult data c))"
  by (simp add: CompressImageIfNeeded_png fitsBudget_decoded compressPNGToJPEG_decoded
      encodeFits_def split: sum.splits)

text \<open>
  C4. \<open>CompressImageIfNeeded\<close> is a function of the bytes, the declared MIME type and the
  budget (given the decoder and the encoder). The qualities are 80, 60, 40 in this order. A
  declared type other than \<open>image/png\<close> returns the input unchanged, not converted. For
  \<open>image/png\<close>, whatever the size of the input: when the decoder fails (it is the same at
  every level), the input is returned unchanged, not converted. When it decodes: the encoding
  at 80 is returned when the encoder succeeds and the result fits; else the encoding at 60
  when the encoder succeeds and the result fits; else the encoding at 40 when the encoder
  succeeds, whether the result fits or not; else (the encoder fails at 40, in particular when
  it fails at every level) the input unchanged, not converted.
\<close>

theorem CompressImageIfNeeded_ladder:
  "qualities = [80, 60, 40] \<and>
   (mimeType \<noteq> ''image/png'' \<longrightarrow>
      CompressImageIfNeeded decode encode data mimeType budget = unchangedResult data mimeType) \<and>
   (decode data = Inl e \<longrightarrow>
      CompressImageIfNeeded decode encode data ''image/png'' budget =
        unchangedResult data ''image/png'') \<and>
   (decode data = Inr img \<and> encode img 80 = Inr c80 \<and> int (length c80) \<le> budget \<longrightarrow>
      CompressImageIfNeeded decode encode data ''image/png'' budget = convertedResult data c80) \<and>
   (decode data = Inr img \<and> \<not> encodeFits encode img 80 budget \<and>
    encode img 60 = Inr c60 \<and> int (length c60) \<le> budget \<longrightarrow>
      CompressImageIfNeeded decode encode data ''image/png'' budget = convertedResult data c60) \<and>
   (decode data = Inr img \<and> \<not> encodeFits encode img 80 budget \<and>
    \<not> encodeFits encode img 60 budget \<and> encode img 40 = Inr c40 \<longrightarrow>
      CompressImageIfNeeded decode encode data ''image/png'' budget = convertedResult data c40) \<and>
   (decode data = Inr img \<and> \<not> encodeFits encode img 80 budget \<and>
    \<not> encodeFits encode img 60 budget \<and> encode img 40 = Inl e40 \<longrightarrow>
      CompressImageIfNeeded decode encode data ''image/png'' budget =
        unchangedResult data ''image/png'') \<and>
   (decode data = Inr img \<and> encode img 80 = Inl e80 \<and> encode img 60 = Inl e60 \<and>
    encode img 40 = Inl e40 \<longrightarrow>
      CompressImageIfNeeded decode encode data ''image/png'' budget =
        unchangedResult data ''image/png'')"
proof (intro conjI impI)
  show "qualities = [80, 60, 40]" by (rule qualities_eq)
next
  assume "mimeType \<noteq> ''image/png''"
  then show "CompressImageIfNeeded decode encode data mimeType budget =
      unchangedResult data mimeType"
    by (rule CompressImageIfNeeded_other)
next
  assume "decode data = Inl e"
  then show "CompressImageIfNeeded decode encode data ''image/png'' budget =
      unchangedResult data ''image/png''"
    by (rule CompressImageIfNeeded_undecoded)
next
  assume "decode data = Inr img \<and> encode img 80 = Inr c80 \<and> int (length c80) \<le> budget"
  then show "CompressImageIfNeeded decode encode data ''image/png'' budget =
      convertedResult data c80"
    by (simp add: CompressImageIfNeeded_decoded encodeFits_def)
next
  assume "decode data = Inr img \<and> \<not> encodeFits encode img 80 budget \<and>
    encode img 60 = Inr c60 \<and> int (length c60) \<le> budget"
  then show "CompressImageIfNeeded decode encode data ''image/png'' budget =
      convertedResult data c60"
    by (simp add: CompressImageIfNeeded_decoded) (simp add: encodeFits_def)
next
  assume "decode data = Inr img \<and> \<not> encodeFits encode img 80 budget \<and>
    \<not> encodeFits encode img 60 budget \<and> encode img 40 = Inr c40"
  then show "CompressImageIfNeeded decode encode data ''image/png'' budget =
      convertedResult data c40"
    by (simp add: CompressImageIfNeeded_decoded)
next
  assume "decode data = Inr img \<and> \<not> encodeFits encode img 80 budget \<and>
    \<not> encodeFits encode img 60 budget \<and> encode img 40 = Inl e40"
  then show "CompressImageIfNeeded decode encode data ''image/png'' budget =
      unchangedResult data ''image/png''"
    by (simp add: CompressImageIfNeeded_decoded)
next
  assume "decode data = Inr img \<and> encode img 80 = Inl e80 \<and> encode img 60 = Inl e60 \<and>
    encode img 40 = Inl e40"
  then show "CompressImageIfNeeded decode encode data ''image/png'' budget =
      unchangedResult data ''image/png''"
    by (simp add: CompressImageIfNeeded_decoded encodeFits_def)
qed

lemma makePNG20: "makePNG 20 = pngSignature @ replicate 12 (CHR 0x00)"
  by (simp add: makePNG_def pngSignature_def)

lemma stub80: "compressPNGToJPEG stubDecode stubEncode (makePNG 20) 80 = Inr (jpegSignature @ replicate 8 (CHR 0x00))"
  by (simp add: makePNG20 compressPNGToJPEG_def stubDecode_def stubEncode_def pngSignature_def)

lemma stub60: "compressPNGToJPEG stubDecode stubEncode (makePNG 20) 60 = Inr (jpegSignature @ replicate 6 (CHR 0x00))"
  by (simp add: makePNG20 compressPNGToJPEG_def stubDecode_def stubEncode_def pngSignature_def)

lemma stub40: "compressPNGToJPEG stubDecode stubEncode (makePNG 20) 40 = Inr (jpegSignature @ replicate 4 (CHR 0x00))"
  by (simp add: makePNG20 compressPNGToJPEG_def stubDecode_def stubEncode_def pngSignature_def)

lemma stubFail: "compressPNGToJPEG stubDecode stubEncode loginPage q = Inl ''failed to decode PNG: not a PNG file''"
  by (simp add: compressPNGToJPEG_def stubDecode_def loginPage_def pngSignature_def)

lemma stubDecode_makePNG20: "stubDecode (makePNG 20) = Inr (replicate 12 (CHR 0x00))"
  by (simp add: makePNG20 stubDecode_def pngSignature_def)

lemma stubDecode_makePNG8: "stubDecode (makePNG 8) = Inr []"
  by (simp add: makePNG_def stubDecode_def pngSignature_def)

lemma stubDecode_loginPage: "stubDecode loginPage = Inl ''not a PNG file''"
  by (simp add: stubDecode_def loginPage_def pngSignature_def)

lemma stubEncode_zeros:
  "stubEncode (replicate 12 (CHR 0x00)) 80 = Inr (jpegSignature @ replicate 8 (CHR 0x00))"
  "stubEncode (replicate 12 (CHR 0x00)) 60 = Inr (jpegSignature @ replicate 6 (CHR 0x00))"
  "stubEncode (replicate 12 (CHR 0x00)) 40 = Inr (jpegSignature @ replicate 4 (CHR 0x00))"
  by (simp_all add: stubEncode_def)

lemma stubEncode_empty: "stubEncode [] q = Inl ''image is empty''"
  by (simp add: stubEncode_def)

text \<open>
  Each branch of the ladder: a 20-byte PNG buffer under four budgets and declared types, a
  buffer that does not decode, and a buffer that decodes to an image the encoder refuses at
  every level.
\<close>

theorem CompressImageIfNeeded_ladder_witness:
  "(''image/jpeg'' \<noteq> ''image/png'' \<and>
    CompressImageIfNeeded stubDecode stubEncode (makePNG 20) ''image/jpeg'' 5 =
      unchangedResult (makePNG 20) ''image/jpeg'') \<and>
   (stubDecode loginPage = Inl ''not a PNG file'' \<and>
    CompressImageIfNeeded stubDecode stubEncode loginPage ''image/png'' 100 =
      unchangedResult loginPage ''image/png'') \<and>
   (stubDecode (makePNG 20) = Inr (replicate 12 (CHR 0x00)) \<and>
    stubEncode (replicate 12 (CHR 0x00)) 80 = Inr (jpegSignature @ replicate 8 (CHR 0x00)) \<and>
    int (length (jpegSignature @ replicate 8 (CHR 0x00))) \<le> 30 \<and>
    int (length (makePNG 20)) \<le> 30 \<and>
    CompressImageIfNeeded stubDecode stubEncode (makePNG 20) ''image/png'' 30 =
      convertedResult (makePNG 20) (jpegSignature @ replicate 8 (CHR 0x00))) \<and>
   (\<not> encodeFits stubEncode (replicate 12 (CHR 0x00)) 80 9 \<and>
    stubEncode (replicate 12 (CHR 0x00)) 60 = Inr (jpegSignature @ replicate 6 (CHR 0x00)) \<and>
    int (length (jpegSignature @ replicate 6 (CHR 0x00))) \<le> 9 \<and>
    CompressImageIfNeeded stubDecode stubEncode (makePNG 20) ''image/png'' 9 =
      convertedResult (makePNG 20) (jpegSignature @ replicate 6 (CHR 0x00))) \<and>
   (\<not> encodeFits stubEncode (replicate 12 (CHR 0x00)) 80 5 \<and>
    \<not> encodeFits stubEncode (replicate 12 (CHR 0x00)) 60 5 \<and>
    stubEncode (replicate 12 (CHR 0x00)) 40 = Inr (jpegSignature @ replicate 4 (CHR 0x00)) \<and>
    \<not> int (length (jpegSignature @ replicate 4 (CHR 0x00))) \<le> 5 \<and>
    CompressImageIfNeeded stubDecode stubEncode (makePNG 20) ''image/png'' 5 =
      convertedResult (makePNG 20) (jpegSignature @ replicate 4 (CHR 0x00))) \<and>
   (stubDecode (makePNG 8) = Inr [] \<and>
    \<not> encodeFits stubEncode [] 80 100 \<and> \<not> encodeFits stubEncode [] 60 100 \<and>
    stubEncode [] 80 = Inl ''image is empty'' \<and> stubEncode [] 60 = Inl ''image is empty'' \<and>
    stubEncode [] 40 = Inl ''image is empty'' \<and>
    CompressImageIfNeeded stubDecode stubEncode (makePNG 8) ''image/png'' 100 =
      unchangedResult (makePNG 8) ''image/png'')"
proof -
  let ?img = "replicate 12 (CHR 0x00)"
  have h1: "''image/jpeg'' \<noteq> ''image/png''" by simp
  have l8: "int (length (jpegSignature @ replicate 8 (CHR 0x00))) \<le> 30"
    and l20: "int (length (makePNG 20)) \<le> 30"
    and l6: "int (length (jpegSignature @ replicate 6 (CHR 0x00))) \<le> 9"
    and l4: "\<not> int (length (jpegSignature @ replicate 4 (CHR 0x00))) \<le> 5"
    by (simp_all add: jpegSignature_def makePNG20 pngSignature_def)
  have n80_9: "\<not> encodeFits stubEncode ?img 80 9"
    and n80_5: "\<not> encodeFits stubEncode ?img 80 5"
    and n60_5: "\<not> encodeFits stubEncode ?img 60 5"
    and ne80: "\<not> encodeFits stubEncode [] 80 100"
    and ne60: "\<not> encodeFits stubEncode [] 60 100"
    by (simp_all add: encodeFits_def stubEncode_zeros stubEncode_empty jpegSignature_def)
  note t = CompressImageIfNeeded_ladder [where decode = stubDecode and encode = stubEncode]
  have c1: "CompressImageIfNeeded stubDecode stubEncode (makePNG 20) ''image/jpeg'' 5 =
      unchangedResult (makePNG 20) ''image/jpeg''"
    using t [where mimeType = "''image/jpeg''" and data = "makePNG 20" and budget = 5] h1
    by blast
  have c2: "CompressImageIfNeeded stubDecode stubEncode loginPage ''image/png'' 100 =
      unchangedResult loginPage ''image/png''"
    using t [where data = loginPage and budget = 100 and e = "''not a PNG file''"]
      stubDecode_loginPage
    by blast
  have c3: "CompressImageIfNeeded stubDecode stubEncode (makePNG 20) ''image/png'' 30 =
      convertedResult (makePNG 20) (jpegSignature @ replicate 8 (CHR 0x00))"
    using t [where data = "makePNG 20" and budget = 30 and img = ?img
        and ?c80.0 = "jpegSignature @ replicate 8 (CHR 0x00)"]
      stubDecode_makePNG20 stubEncode_zeros(1) l8
    by blast
  have c4: "CompressImageIfNeeded stubDecode stubEncode (makePNG 20) ''image/png'' 9 =
      convertedResult (makePNG 20) (jpegSignature @ replicate 6 (CHR 0x00))"
    using t [where data = "makePNG 20" and budget = 9 and img = ?img
        and ?c60.0 = "jpegSignature @ replicate 6 (CHR 0x00)"]
      stubDecode_makePNG20 n80_9 stubEncode_zeros(2) l6
    by blast
  have c5: "CompressImageIfNeeded stubDecode stubEncode (makePNG 20) ''image/png'' 5 =
      convertedResult (makePNG 20) (jpegSignature @ replicate 4 (CHR 0x00))"
    using t [where data = "makePNG 20" and budget = 5 and img = ?img
        and ?c40.0 = "jpegSignature @ replicate 4 (CHR 0x00)"]
      stubDecode_makePNG20 n80_5 n60_5 stubEncode_zeros(3)
    by blast
  have c6: "CompressImageIfNeeded stubDecode stubEncode (makePNG 8) ''image/png'' 100 =
      unchangedResult (makePNG 8) ''image/png''"
    using t [where data = "makePNG 8" and budget = 100 and img = "[]"
        and ?e80.0 = "''image is empty''" and ?e60.0 = "''image is empty''"
        and ?e40.0 = "''image is empty''"]
      stubDecode_makePNG8 stubEncode_empty
    by blast
  show ?thesis
    by (intro conjI h1 l8 l20 l6 l4 n80_9 n80_5 n60_5 ne80 ne60 stubDecode_loginPage
        stubDecode_makePNG20 stubDecode_makePNG8 stubEncode_zeros stubEncode_empty
        c1 c2 c3 c4 c5 c6)
qed

text \<open>
  C10. \<open>CompressImageIfNeeded\<close> compares the declared MIME type with \<open>image/png\<close> byte for
  byte: for every declared type that differs from it, the bytes come back unchanged and not
  converted, whatever the bytes and the budget. \<open>image/png; charset=utf-8\<close> and \<open>IMAGE/PNG\<close>
  are such types, although \<open>isImageMimeType\<close>, which trims, strips parameters and lowercases,
  accepts both.
\<close>

theorem CompressImageIfNeeded_exact_match:
  "(mimeType \<noteq> ''image/png'' \<longrightarrow>
      CompressImageIfNeeded decode encode data mimeType budget = unchangedResult data mimeType) \<and>
   isImageMimeType ''image/png; charset=utf-8'' \<and>
   CompressImageIfNeeded decode encode data ''image/png; charset=utf-8'' budget =
     unchangedResult data ''image/png; charset=utf-8'' \<and>
   isImageMimeType ''IMAGE/PNG'' \<and>
   CompressImageIfNeeded decode encode data ''IMAGE/PNG'' budget = unchangedResult data ''IMAGE/PNG''"
proof -
  have "isImageMimeType ''image/png; charset=utf-8''" "isImageMimeType ''IMAGE/PNG''"
    by code_simp+
  then show ?thesis
    by (simp add: CompressImageIfNeeded_other)
qed

text \<open>A PNG buffer larger than the budget, declared as \<open>IMAGE/PNG\<close>: unchanged; declared as \<open>image/png\<close>: converted.\<close>

theorem CompressImageIfNeeded_exact_match_witness:
  "''IMAGE/PNG'' \<noteq> ''image/png'' \<and>
   prefix pngSignature (makePNG 20) \<and>
   int (length (makePNG 20)) > 5 \<and>
   CompressImageIfNeeded stubDecode stubEncode (makePNG 20) ''IMAGE/PNG'' 5 =
     unchangedResult (makePNG 20) ''IMAGE/PNG'' \<and>
   WasConverted (CompressImageIfNeeded stubDecode stubEncode (makePNG 20) ''IMAGE/PNG'' 5) = False \<and>
   WasConverted (CompressImageIfNeeded stubDecode stubEncode (makePNG 20) ''image/png'' 5) = True"
proof -
  have h: "''IMAGE/PNG'' \<noteq> ''image/png''" by simp
  have c: "CompressImageIfNeeded stubDecode stubEncode (makePNG 20) ''IMAGE/PNG'' 5 =
     unchangedResult (makePNG 20) ''IMAGE/PNG''"
    using CompressImageIfNeeded_exact_match [where mimeType = "''IMAGE/PNG''" and decode = stubDecode
        and encode = stubEncode and data = "makePNG 20" and budget = 5] h
    by blast
  have p: "prefix pngSignature (makePNG 20)" "int (length (makePNG 20)) > 5"
    by (simp_all add: makePNG20 pngSignature_def)
  have w: "WasConverted (CompressImageIfNeeded stubDecode stubEncode (makePNG 20) ''image/png'' 5) = True"
    by (simp add: CompressImageIfNeeded_png fitsBudget_def stub80 stub60 stub40 jpegSignature_def
        convertedResult_def)
  show ?thesis
    using h c p w by (simp add: unchangedResult_def)
qed

section \<open>The budget\<close>

lemma budgetStep_exceeded:
  "budgetExceeded st \<Longrightarrow>
   budgetStep getFile decode encode budget st w img = (st\<lparr>skippedImages := skippedImages st @ [img]\<rparr>, w)"
  by (simp add: budgetStep_def)

lemma budgetLoop_exceeded:
  "budgetExceeded st \<Longrightarrow>
   budgetLoop getFile decode encode budget st w images =
     (st\<lparr>skippedImages := skippedImages st @ images\<rparr>, w)"
proof (induction images arbitrary: st)
  case Nil
  then show ?case by simp
next
  case (Cons img rest)
  have "budgetExceeded (st\<lparr>skippedImages := skippedImages st @ [img]\<rparr>)"
    using Cons.prems by simp
  from Cons.IH [OF this] show ?case
    by (simp add: budgetStep_exceeded [OF Cons.prems])
qed

lemma budgetLoop_append:
  "budgetLoop getFile decode encode budget st w (xs @ ys) =
     (case budgetLoop getFile decode encode budget st w xs of
        (st', w') \<Rightarrow> budgetLoop getFile decode encode budget st' w' ys)"
  by (induction xs arbitrary: st w) (auto split: prod.splits)

lemma length_makePNG: "length (makePNG n) = n"
  by (simp add: makePNG_def pngSignature_def)

lemma isValidImageData_makePNG: "8 \<le> n \<Longrightarrow> isValidImageData (makePNG n)"
  by (simp add: isValidImageData_def makePNG_def pngSignature_def)

lemma threeFiles_download:
  "DownloadImage (GetFileContext threeFiles) asked ''https://files.slack.com/F001'' =
     (Inr (makePNG 1000), asked @ [''https://files.slack.com/F001''])"
  "DownloadImage (GetFileContext threeFiles) asked ''https://files.slack.com/F002'' =
     (Inr (makePNG 1000), asked @ [''https://files.slack.com/F002''])"
  by (simp_all add: DownloadImage_def GetFileContext_def threeFiles_def testMock_def length_makePNG
      isValidImageData_makePNG MaxImageSize_def)

lemma threeFiles_loop2:
  "budgetLoop (GetFileContext threeFiles) stubDecode stubEncode 1500 initialBudgetState []
     [testImage ''F001'' 1000, testImage ''F002'' 1000] =
   (\<lparr>imageData = [(''F001'', makePNG 1000)], mimeTypeOverrides = [],
     skippedImages = [testImage ''F002'' 1000], warnings = [], cumulativeSize = 1000,
     budgetExceeded = True\<rparr>,
    [''https://files.slack.com/F001'', ''https://files.slack.com/F002''])"
  by (simp add: budgetStep_def initialBudgetState_def testImage_def imageKey_def MaxImageSize_def
      CompressImageIfNeeded_def length_makePNG Let_def threeFiles_download)

lemma oneFile_step:
  "budgetStep (GetFileContext (testMock [(''F001'', 2000)])) stubDecode stubEncode 1000
     initialBudgetState [] (testImage ''F001'' 2000) =
   (\<lparr>imageData = [], mimeTypeOverrides = [], skippedImages = [testImage ''F001'' 2000],
     warnings = [], cumulativeSize = 0, budgetExceeded = True\<rparr>,
    [''https://files.slack.com/F001''])"
  by (simp add: budgetStep_def initialBudgetState_def testImage_def imageKey_def MaxImageSize_def
      CompressImageIfNeeded_def length_makePNG Let_def DownloadImage_def GetFileContext_def
      testMock_def isValidImageData_makePNG)

text \<open>
  C2, as the code has it. The loop runs over the first \<open>MaxImagesPerCall\<close> references. Split
  them at any point where the flag is set. Whatever references \<open>further\<close> the loop goes on with,
  the flag is still set after them, each of them is appended to the skipped list, and nothing
  else changes: the world is the one left by the references before the point, so none of the
  later ones is fetched, whatever its size. The function returns the state at that point with
  the rest of the first \<open>MaxImagesPerCall\<close> references appended to the skipped list;
  references beyond these do not appear in the result.
\<close>

theorem DownloadImagesWithBudget_sticky:
  assumes "take MaxImagesPerCall images = before @ later"
    and "budgetLoop getFile decode encode budget initialBudgetState w before = (st, w')"
    and "budgetExceeded st"
  shows "budgetLoop getFile decode encode budget initialBudgetState w (before @ further) =
           (st\<lparr>skippedImages := skippedImages st @ further\<rparr>, w') \<and>
         budgetExceeded (st\<lparr>skippedImages := skippedImages st @ further\<rparr>) \<and>
         DownloadImagesWithBudget getFile decode encode w images budget =
           ((imageData st, mimeTypeOverrides st, skippedImages st @ later, warnings st), w')"
proof -
  have loop: "budgetLoop getFile decode encode budget initialBudgetState w (before @ ys) =
      (st\<lparr>skippedImages := skippedImages st @ ys\<rparr>, w')" for ys
    by (simp add: budgetLoop_append assms(2) budgetLoop_exceeded [OF assms(3)])
  have ne: "before \<noteq> []"
    using assms(2,3) by (auto simp: initialBudgetState_def)
  have t: "(if length images > MaxImagesPerCall then take MaxImagesPerCall images else images) =
      before @ later"
    using assms(1) by auto
  have "DownloadImagesWithBudget getFile decode encode w images budget =
      ((imageData st, mimeTypeOverrides st, skippedImages st @ later, warnings st), w')"
    unfolding DownloadImagesWithBudget_def Let_def t using ne by (simp add: loop)
  with loop [of further] assms(3) show ?thesis by simp
qed

text \<open>Three files of 1000 bytes and a budget of 1500: the second sets the flag, the third is skipped unfetched.\<close>

theorem DownloadImagesWithBudget_sticky_witness:
  "take MaxImagesPerCall [testImage ''F001'' 1000, testImage ''F002'' 1000, testImage ''F003'' 1000] =
     [testImage ''F001'' 1000, testImage ''F002'' 1000] @ [testImage ''F003'' 1000] \<and>
   budgetLoop (GetFileContext threeFiles) stubDecode stubEncode 1500 initialBudgetState []
     [testImage ''F001'' 1000, testImage ''F002'' 1000] =
     (\<lparr>imageData = [(''F001'', makePNG 1000)], mimeTypeOverrides = [],
       skippedImages = [testImage ''F002'' 1000], warnings = [], cumulativeSize = 1000,
       budgetExceeded = True\<rparr>,
      [''https://files.slack.com/F001'', ''https://files.slack.com/F002'']) \<and>
   DownloadImagesWithBudget (GetFileContext threeFiles) stubDecode stubEncode []
     [testImage ''F001'' 1000, testImage ''F002'' 1000, testImage ''F003'' 1000] 1500 =
     (([(''F001'', makePNG 1000)], [], [testImage ''F002'' 1000, testImage ''F003'' 1000], []),
      [''https://files.slack.com/F001'', ''https://files.slack.com/F002''])"
proof -
  let ?st = "\<lparr>imageData = [(''F001'', makePNG 1000)], mimeTypeOverrides = [],
       skippedImages = [testImage ''F002'' 1000], warnings = [], cumulativeSize = 1000,
       budgetExceeded = True\<rparr>"
  have t: "take MaxImagesPerCall
      [testImage ''F001'' 1000, testImage ''F002'' 1000, testImage ''F003'' 1000] =
     [testImage ''F001'' 1000, testImage ''F002'' 1000] @ [testImage ''F003'' 1000]"
    by (simp add: MaxImagesPerCall_def)
  have e: "budgetExceeded ?st" by simp
  from DownloadImagesWithBudget_sticky [OF t threeFiles_loop2 e]
  have "DownloadImagesWithBudget (GetFileContext threeFiles) stubDecode stubEncode []
     [testImage ''F001'' 1000, testImage ''F002'' 1000, testImage ''F003'' 1000] 1500 =
     (([(''F001'', makePNG 1000)], [], [testImage ''F002'' 1000, testImage ''F003'' 1000], []),
      [''https://files.slack.com/F001'', ''https://files.slack.com/F002''])"
    by simp
  with t threeFiles_loop2 show ?thesis by simp
qed

text \<open>
  C2, as stated, fails on a list of eleven references. The first sets the flag; the eleventh
  comes after it and is not fetched, but it is not recorded as skipped either: the list is cut
  to \<open>MaxImagesPerCall\<close> references before the loop.
\<close>

theorem DownloadImagesWithBudget_sticky_counterexample:
  "budgetExceeded (fst (budgetLoop (GetFileContext (testMock [(''F001'', 2000)])) stubDecode stubEncode
      1000 initialBudgetState [] [testImage ''F001'' 2000])) \<and>
   DownloadImagesWithBudget (GetFileContext (testMock [(''F001'', 2000)])) stubDecode stubEncode []
     (replicate 10 (testImage ''F001'' 2000) @ [testImage ''F011'' 500]) 1000 =
     (([], [], replicate 10 (testImage ''F001'' 2000), []), [''https://files.slack.com/F001'']) \<and>
   testImage ''F011'' 500 \<notin> set (replicate 10 (testImage ''F001'' 2000))"
proof -
  have r: "replicate 10 (testImage ''F001'' 2000) =
      testImage ''F001'' 2000 # replicate 9 (testImage ''F001'' 2000)"
    by (simp add: numeral_eq_Suc)
  have l: "budgetLoop (GetFileContext (testMock [(''F001'', 2000)])) stubDecode stubEncode 1000
      initialBudgetState [] (replicate 10 (testImage ''F001'' 2000)) =
     (\<lparr>imageData = [], mimeTypeOverrides = [],
       skippedImages = replicate 10 (testImage ''F001'' 2000),
       warnings = [], cumulativeSize = 0, budgetExceeded = True\<rparr>,
      [''https://files.slack.com/F001''])"
    unfolding r by (simp add: oneFile_step budgetLoop_exceeded)
  have 1: "budgetExceeded (fst (budgetLoop (GetFileContext (testMock [(''F001'', 2000)])) stubDecode
      stubEncode 1000 initialBudgetState [] [testImage ''F001'' 2000]))"
    by (simp add: oneFile_step)
  have 2: "DownloadImagesWithBudget (GetFileContext (testMock [(''F001'', 2000)])) stubDecode stubEncode []
     (replicate 10 (testImage ''F001'' 2000) @ [testImage ''F011'' 500]) 1000 =
     (([], [], replicate 10 (testImage ''F001'' 2000), []), [''https://files.slack.com/F001''])"
    unfolding DownloadImagesWithBudget_def Let_def
    by (simp add: MaxImagesPerCall_def l)
  have 3: "testImage ''F011'' 500 \<notin> set (replicate 10 (testImage ''F001'' 2000))"
    by (simp add: testImage_def)
  from 1 2 3 show ?thesis by simp
qed

lemma includedBytes_update:
  "includedBytes (AList.update k v m) \<le> includedBytes m + int (length v)"
  by (induction m) (auto simp: includedBytes_def)

lemma budgetStep_withinBudget:
  assumes "withinBudget budget st"
    and "budgetStep getFile decode encode budget st w img = (st', w')"
  shows "withinBudget budget st'"
proof -
  have u: "\<And>k v. includedBytes (AList.update k v (imageData st)) \<le> cumulativeSize st + int (length v)"
    using includedBytes_update assms(1) unfolding withinBudget_def
    by (metis add.commute add_le_cancel_left order_trans)
  show ?thesis
    using assms u
    by (auto simp: budgetStep_def withinBudget_def Let_def split: if_splits prod.splits sum.splits)
qed

lemma budgetLoop_withinBudget:
  "withinBudget budget st \<Longrightarrow>
   budgetLoop getFile decode encode budget st w images = (st', w') \<Longrightarrow>
   withinBudget budget st'"
proof (induction images arbitrary: st w)
  case Nil
  then show ?case by simp
next
  case (Cons img rest)
  obtain st1 w1 where s: "budgetStep getFile decode encode budget st w img = (st1, w1)"
    by (cases "budgetStep getFile decode encode budget st w img")
  have "withinBudget budget st1"
    using budgetStep_withinBudget [OF Cons.prems(1) s] .
  moreover have "budgetLoop getFile decode encode budget st1 w1 rest = (st', w')"
    using Cons.prems(2) by (simp add: s)
  ultimately show ?case by (rule Cons.IH)
qed

lemma includedBytes_nonneg: "0 \<le> includedBytes m"
  by (induction m) (simp_all add: includedBytes_def)

text \<open>
  C3. For every invocation of \<open>DownloadImagesWithBudget\<close> with a budget that is not
  negative, the sum of the byte lengths of the included images is at most the budget. No
  exception is needed: the result of the compressor is compared with the budget before it is
  included, also when it is the last-resort encoding. With a negative budget nothing is
  included.
\<close>

theorem DownloadImagesWithBudget_within_budget:
  "(0 \<le> budget \<longrightarrow>
      includedBytes (fst (fst (DownloadImagesWithBudget getFile decode encode w images budget)))
        \<le> budget) \<and>
   (budget < 0 \<longrightarrow>
      fst (fst (DownloadImagesWithBudget getFile decode encode w images budget)) = [])"
proof -
  let ?images = "if length images > MaxImagesPerCall then take MaxImagesPerCall images else images"
  obtain st w' where l: "budgetLoop getFile decode encode budget initialBudgetState w ?images = (st, w')"
    by (cases "budgetLoop getFile decode encode budget initialBudgetState w ?images")
  have "withinBudget budget initialBudgetState"
    by (simp add: withinBudget_def initialBudgetState_def includedBytes_def)
  then have inv: "withinBudget budget st"
    using l by (rule budgetLoop_withinBudget)
  have r: "fst (fst (DownloadImagesWithBudget getFile decode encode w images budget)) =
      (if length ?images = 0 then [] else imageData st)"
    unfolding DownloadImagesWithBudget_def Let_def l by simp
  have e: "?images = [] \<Longrightarrow> imageData st = []"
    using l by (simp add: initialBudgetState_def) auto
  have r': "fst (fst (DownloadImagesWithBudget getFile decode encode w images budget)) = imageData st"
    using r e by (cases "?images = []") simp_all
  show ?thesis
    unfolding r' using inv includedBytes_nonneg [of "imageData st"]
    by (auto simp: withinBudget_def includedBytes_def)
qed

text \<open>Three files of 1000 bytes: one is included for a budget of 1500, none for a budget of \<open>-1\<close>.\<close>

theorem DownloadImagesWithBudget_within_budget_witness:
  "(0::int) \<le> 1500 \<and>
   fst (fst (DownloadImagesWithBudget (GetFileContext threeFiles) stubDecode stubEncode []
     [testImage ''F001'' 1000, testImage ''F002'' 1000, testImage ''F003'' 1000] 1500)) =
     [(''F001'', makePNG 1000)] \<and>
   includedBytes (fst (fst (DownloadImagesWithBudget (GetFileContext threeFiles) stubDecode stubEncode []
     [testImage ''F001'' 1000, testImage ''F002'' 1000, testImage ''F003'' 1000] 1500))) \<le> 1500 \<and>
   (- 1::int) < 0 \<and>
   fst (fst (DownloadImagesWithBudget (GetFileContext threeFiles) stubDecode stubEncode []
     [testImage ''F001'' 1000, testImage ''F002'' 1000, testImage ''F003'' 1000] (- 1))) = []"
proof -
  let ?imgs = "[testImage ''F001'' 1000, testImage ''F002'' 1000, testImage ''F003'' 1000]"
  note w = DownloadImagesWithBudget_within_budget [of _ "GetFileContext threeFiles" stubDecode
      stubEncode "[]" ?imgs]
  have a: "includedBytes (fst (fst (DownloadImagesWithBudget (GetFileContext threeFiles) stubDecode
      stubEncode [] ?imgs 1500))) \<le> 1500"
    using w [of 1500] by simp
  have b: "fst (fst (DownloadImagesWithBudget (GetFileContext threeFiles) stubDecode
      stubEncode [] ?imgs (- 1))) = []"
    using w [of "- 1"] by simp
  have c: "fst (fst (DownloadImagesWithBudget (GetFileContext threeFiles) stubDecode stubEncode []
     ?imgs 1500)) = [(''F001'', makePNG 1000)]"
    unfolding DownloadImagesWithBudget_def Let_def
    by (simp add: MaxImagesPerCall_def budgetStep_def initialBudgetState_def testImage_def
        imageKey_def MaxImageSize_def CompressImageIfNeeded_def length_makePNG Let_def
        threeFiles_download)
  from a b c show ?thesis by simp
qed







end
